theory Spec2Isabelle
  imports Complex_Main "HOL-Library.Log_Nat"
begin

section \<open>The wallet ledger of src/main.go\<close>

text \<open>
  The program keeps two tables in a relational database and exposes four operations on
  them: \<open>CreateWallet\<close>, \<open>GetWallet\<close>, \<open>Transfer\<close> and \<open>GetHistory\<close>, all methods of
  \<open>DBStore\<close>. This theory embeds the four methods as functions on the contents of the two
  tables and settles the specification's claims on them.

  Conventions of the embedding:
  \<^item> A value of the Go type \<open>float64\<close> (a balance, an amount) is the real number it
    denotes. The SQL expressions \<open>balance - $1\<close> and \<open>balance + $1\<close> are binary64
    operations: the exact difference or sum, rounded to the nearest binary64 value, ties
    to even (\<open>round64\<close>). Infinities and NaN are not real numbers and are outside the
    model: \<open>round64\<close> is the binary64 result as long as its magnitude is below \<open>2^1024\<close>.
  \<^item> Every call into \<open>database/sql\<close> can return an error that the source propagates with
    \<open>if err != nil { return err }\<close>. Which calls do so is an input of each operation:
    the predicate \<open>fails\<close> on \<open>db_call\<close>.
  \<^item> A transaction works on a private copy of the tables. \<open>tx.Commit()\<close> publishes the
    copy; every return before it runs the deferred \<open>tx.Rollback()\<close>, which leaves the
    tables as they were.
\<close>

subsection \<open>Data model\<close>

text \<open>\<open>type Wallet struct { ID string; Balance float64 }\<close>\<close>

record Wallet =
  ID :: string
  Balance :: real

text \<open>\<open>type Transaction struct { Time time.Time; From string; To string; Amount float64 }\<close>.
  A point in time is a natural number (a clock reading).\<close>

record Transaction =
  Time :: nat
  From :: string
  To :: string
  Amount :: real

text \<open>
  Modelled from the spec: the declarations of the tables \<open>wallets\<close> and \<open>transactions\<close>
  (the \<open>CREATE TABLE\<close> statements) are not part of the source. Following the persisted
  layout of the specification, \<open>wallets\<close> is keyed by \<open>id\<close> and has a \<open>balance\<close> column, and
  \<open>transactions\<close> is an append-only sequence of rows with a store-assigned \<open>time\<close>, the two
  wallet ids and the amount. No further constraint (foreign key, check) is assumed.
  \<open>DBStore\<close> holds the handle \<open>db\<close>; the model holds what the handle gives access to.
\<close>

record DBStore =
  wallets :: "string \<rightharpoonup> real"
  transactions :: "Transaction list"

text \<open>
  The errors the methods return. \<open>NotFound\<close> is \<open>sql.ErrNoRows\<close>, returned by
  \<open>Scan\<close> on a \<open>QueryRow\<close> that selected nothing; \<open>InsufficientFunds\<close> is
  \<open>fmt.Errorf("insufficient funds")\<close>; \<open>StoreError\<close> is any other error of
  \<open>database/sql\<close> or of the driver.
\<close>

datatype error = NotFound | InsufficientFunds | StoreError

text \<open>The calls into \<open>database/sql\<close>, in the order of the source.\<close>

datatype db_call =
    ExecInsertWallet
  | QueryRowWallet
  | Begin
  | QueryRowBalance
  | ExecDebit
  | ExecCredit
  | ExecInsertTransaction
  | Commit
  | QueryHistory
  | RowsScan
  | RowsErr

definition no_fault :: "db_call \<Rightarrow> bool" where
  "no_fault c = False"

subsection \<open>Binary64 arithmetic\<close>

text \<open>For \<open>y > 0\<close>, the exponent \<open>e\<close> with \<open>2^e \<le> y < 2^(e+1)\<close>, computed on integers:
  from the bit length of \<open>\<lfloor>y\<rfloor>\<close> when \<open>y \<ge> 1\<close>, of \<open>\<lceil>1/y\<rceil> - 1\<close> otherwise.\<close>

definition exponent :: "real \<Rightarrow> int" where
  "exponent y = (if 1 \<le> y then bitlen \<lfloor>y\<rfloor> - 1 else - bitlen (\<lceil>1 / y\<rceil> - 1))"

text \<open>The integer nearest to \<open>x\<close>; of two equally near, the even one.\<close>

definition round_half_even :: "real \<Rightarrow> int" where
  "round_half_even x =
     (let n = \<lfloor>x\<rfloor>; d = x - of_int n in
      if d < 1 / 2 then n else if 1 / 2 < d then n + 1 else if even n then n else n + 1)"

text \<open>Rounding to binary64: 53 significant bits, so the unit in the last place of a
  number with exponent \<open>e\<close> is \<open>2^(e - 52)\<close>; below the least normal exponent \<open>-1022\<close> the
  unit stays \<open>2^(-1074)\<close> (subnormal numbers).\<close>

definition round64 :: "real \<Rightarrow> real" where
  "round64 x =
     (if x = 0 then 0
      else let e = max (exponent \<bar>x\<bar>) (- 1022); ulp = 2 powi (e - 52)
           in of_int (round_half_even (x / ulp)) * ulp)"


subsection \<open>The operations\<close>

text \<open>\<open>UPDATE wallets SET balance = f(balance) WHERE id = $2\<close>: a statement that
  matches no row changes nothing and is no error.\<close>

definition update_balance :: "(real \<Rightarrow> real) \<Rightarrow> string \<Rightarrow> (string \<rightharpoonup> real) \<Rightarrow> (string \<rightharpoonup> real)" where
  "update_balance f k w = (case w k of None \<Rightarrow> w | Some b \<Rightarrow> w(k \<mapsto> f b))"

text \<open>\<open>CreateWallet\<close>: the id is \<open>uuid.New().String()\<close>, an input of the model. The
  \<open>INSERT\<close> fails when the driver fails or the key is already in the table.\<close>

definition CreateWallet :: "(db_call \<Rightarrow> bool) \<Rightarrow> string \<Rightarrow> DBStore \<Rightarrow> (error + Wallet) \<times> DBStore" where
  "CreateWallet fails uuid s =
     (let id = uuid; balance = 100 in
      if fails ExecInsertWallet \<or> id \<in> dom (wallets s) then (Inl StoreError, s)
      else (Inr \<lparr>ID = id, Balance = balance\<rparr>, s\<lparr>wallets := (wallets s)(id \<mapsto> balance)\<rparr>))"

text \<open>\<open>GetWallet\<close>: \<open>SELECT id, balance FROM wallets WHERE id = $1\<close>.\<close>

definition GetWallet :: "(db_call \<Rightarrow> bool) \<Rightarrow> string \<Rightarrow> DBStore \<Rightarrow> error + Wallet" where
  "GetWallet fails walletID s =
     (if fails QueryRowWallet then Inl StoreError
      else case wallets s walletID of
             None \<Rightarrow> Inl NotFound
           | Some b \<Rightarrow> Inr \<lparr>ID = walletID, Balance = b\<rparr>)"

text \<open>\<open>Transfer\<close>: the result is Go's \<open>error\<close>, \<open>None\<close> for \<open>nil\<close>. \<open>now\<close> is the time
  the store gives the inserted row.\<close>

definition Transfer :: "(db_call \<Rightarrow> bool) \<Rightarrow> nat \<Rightarrow> string \<Rightarrow> string \<Rightarrow> real \<Rightarrow> DBStore \<Rightarrow> error option \<times> DBStore" where
  "Transfer fails now fromID toID amount s =
     (if fails Begin then (Some StoreError, s)
      else if fails QueryRowBalance then (Some StoreError, s)
      else case wallets s fromID of
        None \<Rightarrow> (Some NotFound, s)
      | Some fromBalance \<Rightarrow>
          if fromBalance < amount then (Some InsufficientFunds, s)
          else if fails ExecDebit then (Some StoreError, s)
          else let w1 = update_balance (\<lambda>balance. round64 (balance - amount)) fromID (wallets s) in
          if fails ExecCredit then (Some StoreError, s)
          else let w2 = update_balance (\<lambda>balance. round64 (balance + amount)) toID w1 in
          if fails ExecInsertTransaction then (Some StoreError, s)
          else let log = transactions s @ [\<lparr>Time = now, From = fromID, To = toID, Amount = amount\<rparr>] in
          if fails Commit then (Some StoreError, s)
          else (None, \<lparr>wallets = w2, transactions = log\<rparr>))"

text \<open>
  The row locks of \<open>Transfer\<close>. \<open>SELECT ... FOR UPDATE\<close> locks the row it selects and an
  \<open>UPDATE\<close> locks the row it changes; a lock is held until the transaction ends. The list
  has, in the order of the statements executed on the path the call takes, the id of the
  row each statement locks: the sender's for the balance query (main.go:85) and for the
  debit (main.go:95), the recipient's for the credit (main.go:101). A statement that
  selects no row locks none.
\<close>

definition Transfer_locks :: "(db_call \<Rightarrow> bool) \<Rightarrow> string \<Rightarrow> string \<Rightarrow> real \<Rightarrow> DBStore \<Rightarrow> string list" where
  "Transfer_locks fails fromID toID amount s =
     (if fails Begin then []
      else if fails QueryRowBalance then []
      else case wallets s fromID of
        None \<Rightarrow> []
      | Some fromBalance \<Rightarrow>
          if fromBalance < amount then [fromID]
          else if fails ExecDebit then [fromID]
          else if fails ExecCredit then [fromID, fromID]
          else [fromID, fromID] @ (if toID \<in> dom (wallets s) then [toID] else []))"

text \<open>\<open>GetHistory\<close>: the rows of
  \<open>SELECT ... FROM transactions WHERE from_wallet = $1 OR to_wallet = $1\<close>, in the order
  of the table, are scanned one by one and appended to \<open>history\<close>.\<close>

fun scan_rows :: "(db_call \<Rightarrow> bool) \<Rightarrow> Transaction list \<Rightarrow> Transaction list \<Rightarrow> error + Transaction list" where
  "scan_rows fails [] history = Inr history"
| "scan_rows fails (transaction # rows) history =
     (if fails RowsScan then Inl StoreError
      else scan_rows fails rows (history @ [transaction]))"

definition GetHistory :: "(db_call \<Rightarrow> bool) \<Rightarrow> string \<Rightarrow> DBStore \<Rightarrow> error + Transaction list" where
  "GetHistory fails walletID s =
     (if fails QueryHistory then Inl StoreError
      else let rows = filter (\<lambda>t. From t = walletID \<or> To t = walletID) (transactions s) in
        case scan_rows fails rows [] of
          Inl err \<Rightarrow> Inl err
        | Inr history \<Rightarrow> if fails RowsErr then Inl StoreError else Inr history)"

text \<open>The sum of all balances in the table \<open>wallets\<close>.\<close>

definition total_balance :: "DBStore \<Rightarrow> real" where
  "total_balance s = (\<Sum>k \<in> dom (wallets s). the (wallets s k))"

text \<open>
  The request gateway (\<open>main\<close> and the four handlers) turns each request into one call of
  a method and, for a completed request, leaves the store in the state the method left it.
  A request is modelled by the operation it invokes, and a sequence of completed requests
  by the state passed from one to the next. Each request comes with the store faults
  that occur while it is served.
\<close>

datatype request =
    PostWallet string
  | GetWalletById string
  | PostSend nat string string real
  | GetHistoryById string

fun serve :: "(db_call \<Rightarrow> bool) \<Rightarrow> request \<Rightarrow> DBStore \<Rightarrow> DBStore" where
  "serve fails (PostWallet uuid) s = snd (CreateWallet fails uuid s)"
| "serve fails (GetWalletById walletID) s = s"
| "serve fails (PostSend now fromID toID amount) s = snd (Transfer fails now fromID toID amount s)"
| "serve fails (GetHistoryById walletID) s = s"

fun serve_all :: "((db_call \<Rightarrow> bool) \<times> request) list \<Rightarrow> DBStore \<Rightarrow> DBStore" where
  "serve_all [] s = s"
| "serve_all ((fails, r) # rs) s = serve_all rs (serve fails r s)"

text \<open>The database before the first request: both tables empty.\<close>

definition empty_store :: DBStore where
  "empty_store = \<lparr>wallets = Map.empty, transactions = []\<rparr>"

text \<open>Every balance in the table is non-negative.\<close>

definition balances_nonneg :: "DBStore \<Rightarrow> bool" where
  "balances_nonneg s = (\<forall>k b. wallets s k = Some b \<longrightarrow> 0 \<le> b)"

text \<open>A request that does not ask for the transfer of a negative amount.\<close>

fun amount_nonneg :: "request \<Rightarrow> bool" where
  "amount_nonneg (PostSend now fromID toID amount) = (0 \<le> amount)"
| "amount_nonneg r = True"


definition history_calls :: "db_call list" where
  "history_calls = [QueryHistory, RowsScan, RowsErr]"

section \<open>Properties\<close>

subsection \<open>Binary64 rounding\<close>

text \<open>The equations that evaluate \<open>round64\<close> on a given number.\<close>

lemmas round64_eval = round64_def exponent_def compute_bitlen round_half_even_def Let_def

lemma round_half_even_of_int: "round_half_even (of_int k) = k"
  by (simp add: round_half_even_def)

lemma round_half_even_nearest: "\<bar>real_of_int (round_half_even x) - x\<bar> \<le> 1 / 2"
  by (auto simp: round_half_even_def Let_def)

lemma round_half_even_nonneg: "0 \<le> x \<Longrightarrow> 0 \<le> round_half_even x"
  by (auto simp: round_half_even_def Let_def)

lemma round64_nonneg: "0 \<le> x \<Longrightarrow> 0 \<le> round64 x"
  by (auto simp: round64_def Let_def intro!: mult_nonneg_nonneg round_half_even_nonneg divide_nonneg_pos)

lemma exponent_of_int: "0 < n \<Longrightarrow> exponent (of_int n) = bitlen n - 1"
  by (simp add: exponent_def)

text \<open>Whole numbers of magnitude below \<open>2^53\<close> are binary64 values: rounding leaves
  them as they are.\<close>

lemma round64_of_int:
  assumes "\<bar>n\<bar> < 2 ^ 53"
  shows "round64 (of_int n) = of_int n"
proof (cases "n = 0")
  case True
  then show ?thesis by (simp add: round64_def)
next
  case False
  define m where "m = \<bar>n\<bar>"
  define e where "e = bitlen m - 1"
  have m: "0 < m" "m < 2 ^ 53" using False assms by (simp_all add: m_def)
  have "bitlen m \<le> 53" using m(2) by (simp add: bitlen_le_iff_power)
  moreover have "1 \<le> bitlen m" using m(1) bitlen_eq_zero_iff [of m] bitlen_nonneg [of m] by linarith
  ultimately have e: "0 \<le> e" "e \<le> 52" by (simp_all add: e_def)
  have ex: "exponent \<bar>real_of_int n\<bar> = e"
    using exponent_of_int [OF m(1)] by (simp add: m_def e_def)
  define k where "k = nat (52 - e)"
  have ulp: "(2::real) powi (e - 52) = 1 / 2 ^ k"
    using e by (simp add: k_def power_int_def power_one_over)
  have "real_of_int n / (1 / 2 ^ k) = real_of_int (n * 2 ^ k)" by simp
  then have "round_half_even (real_of_int n / (1 / 2 ^ k)) = n * 2 ^ k"
    by (simp only: round_half_even_of_int)
  then show ?thesis
    using False e by (simp add: round64_def ex ulp Let_def max_def)
qed

text \<open>\<open>exponent\<close> is the binary exponent: \<open>2^e \<le> y < 2^(e+1)\<close>.\<close>

lemma exponent_bounds:
  assumes "0 < y"
  shows "2 powi (exponent y) \<le> y \<and> y < 2 powi (exponent y + 1)"
proof (cases "1 \<le> y")
  case True
  define m where "m = \<lfloor>y\<rfloor>"
  define e where "e = bitlen m - 1"
  have m: "0 < m" using True by (simp add: m_def)
  have b: "2 ^ nat e \<le> m" "m < 2 ^ nat (bitlen m)"
    using bitlen_bounds [OF m] by (simp_all add: e_def)
  have e0: "0 \<le> e"
    using m bitlen_eq_zero_iff [of m] bitlen_nonneg [of m] by (simp add: e_def)
  have ex: "exponent y = e" using True by (simp add: exponent_def m_def e_def)
  have "real_of_int (2 ^ nat e) \<le> real_of_int m" using b(1) by (simp only: of_int_le_iff)
  also have "\<dots> \<le> y" by (simp add: m_def)
  finally have lo: "2 powi e \<le> y" using e0 by (simp add: power_int_def)
  have "m + 1 \<le> 2 ^ nat (bitlen m)" using b(2) by simp
  then have "real_of_int (m + 1) \<le> real_of_int (2 ^ nat (bitlen m))" by (simp only: of_int_le_iff)
  moreover have "y < real_of_int (m + 1)" by (simp add: m_def)
  ultimately have "y < real_of_int (2 ^ nat (e + 1))" by (simp add: e_def)
  then have hi: "y < 2 powi (e + 1)" using e0 by (simp add: power_int_def)
  from lo hi show ?thesis by (simp add: ex)
next
  case False
  define z where "z = 1 / y"
  define k where "k = \<lceil>z\<rceil> - 1"
  define L where "L = bitlen k"
  have z: "1 < z" using False assms by (simp add: z_def)
  have k: "0 < k" using z by (simp add: k_def less_ceiling_iff)
  have kz: "real_of_int k < z" "z \<le> real_of_int k + 1"
    by (simp_all add: k_def) linarith+
  have b: "2 ^ nat (L - 1) \<le> k" "k < 2 ^ nat L"
    using bitlen_bounds [OF k] by (simp_all add: L_def)
  have L1: "1 \<le> L"
    using k bitlen_eq_zero_iff [of k] bitlen_nonneg [of k] by (simp add: L_def)
  have ex: "exponent y = - L" using False by (simp add: exponent_def z_def k_def L_def)
  have "k + 1 \<le> 2 ^ nat L" using b(2) by simp
  then have "real_of_int (k + 1) \<le> real_of_int (2 ^ nat L)" by (simp only: of_int_le_iff)
  then have "real_of_int k + 1 \<le> 2 ^ nat L" by simp
  then have zhi: "z \<le> 2 ^ nat L" using kz(2) by linarith
  have "(2::real) ^ nat (L - 1) \<le> real_of_int k" using b(1) by simp
  then have zlo: "2 ^ nat (L - 1) < z" using kz(1) by linarith
  have y: "y = 1 / z" by (simp add: z_def)
  have lo: "2 powi (- L) \<le> y"
  proof -
    have "1 / 2 ^ nat L \<le> 1 / z" using zhi z by (intro divide_left_mono) simp_all
    then show ?thesis using L1 by (simp add: y power_int_def power_one_over)
  qed
  have hi: "y < 2 powi (- L + 1)"
  proof -
    have "1 / z < 1 / 2 ^ nat (L - 1)" using zlo z by (intro divide_strict_left_mono) simp_all
    moreover have "(2::real) powi (- L + 1) = 1 / 2 ^ nat (L - 1)"
      using L1 by (cases "L = 1") (simp_all add: power_int_def power_one_over)
    ultimately show ?thesis by (simp add: y)
  qed
  from lo hi show ?thesis by (simp add: ex)
qed


subsection \<open>Failed transfers leave the store alone\<close>

lemma Transfer_error_unchanged:
  "Transfer fails now fromID toID amount s = (Some err, s') \<Longrightarrow> s' = s"
  by (auto simp: Transfer_def Let_def split: if_splits option.splits)

text \<open>
  Claim C5. When the sender exists and its balance is strictly less than the amount,
  \<open>Transfer\<close> fails and the store (every balance and the log) is exactly as before the
  call. The error is \<open>InsufficientFunds\<close> whenever the store answered the two calls made
  up to that point, \<open>Begin\<close> and the balance query; otherwise it is the store's error.
\<close>

theorem Transfer_insufficient_funds:
  assumes "wallets s fromID = Some fromBalance" and "fromBalance < amount"
  shows "snd (Transfer fails now fromID toID amount s) = s \<and>
         fst (Transfer fails now fromID toID amount s) =
           (if fails Begin \<or> fails QueryRowBalance then Some StoreError else Some InsufficientFunds)"
  using assms by (simp add: Transfer_def)

theorem Transfer_insufficient_funds_witness:
  "Transfer no_fault 7 ''x'' ''y'' 1000 \<lparr>wallets = [''x'' \<mapsto> 50, ''y'' \<mapsto> 100], transactions = []\<rparr>
     = (Some InsufficientFunds, \<lparr>wallets = [''x'' \<mapsto> 50, ''y'' \<mapsto> 100], transactions = []\<rparr>)"
  using Transfer_insufficient_funds
    [of "\<lparr>wallets = [''x'' \<mapsto> 50, ''y'' \<mapsto> 100], transactions = []\<rparr>" "''x''" 50 1000
        no_fault 7 "''y''"]
  by (simp add: no_fault_def prod_eq_iff)

subsection \<open>A recipient that does not exist\<close>

text \<open>
  Claim C1 says that a transfer to an id with no account fails with \<open>NotFound\<close> and
  changes nothing. The source checks the sender only: the \<open>UPDATE\<close> of the recipient
  matches no row, its result is discarded, and the transfer commits. At the claim's own
  scenario, \<open>Transfer(X, "nonexistent", 10)\<close> with X holding 100, the call returns \<open>nil\<close>,
  X is debited, and a record naming the missing recipient is logged.
\<close>

theorem Transfer_to_nonexistent_succeeds:
  "Transfer no_fault 1 ''X'' ''nonexistent'' 10 \<lparr>wallets = [''X'' \<mapsto> 100], transactions = []\<rparr>
     = (None, \<lparr>wallets = [''X'' \<mapsto> 90],
               transactions = [\<lparr>Time = 1, From = ''X'', To = ''nonexistent'', Amount = 10\<rparr>]\<rparr>)"
  by (simp add: Transfer_def update_balance_def no_fault_def round64_eval)

subsection \<open>Amounts that are not positive\<close>

text \<open>
  Claim C2 says that a transfer of a non-positive amount fails with \<open>InvalidAmount\<close> and
  changes nothing. The source has no check of the amount: a negative amount passes the
  comparison \<open>fromBalance < amount\<close> and moves money from the recipient to the sender.
  With X and Y holding 100 each, \<open>Transfer(X, Y, -10)\<close> returns \<open>nil\<close>, leaves X with 110
  and Y with 90, and logs a record of amount -10.
\<close>

theorem Transfer_negative_amount_succeeds:
  "Transfer no_fault 1 ''X'' ''Y'' (- 10)
       \<lparr>wallets = [''X'' \<mapsto> 100, ''Y'' \<mapsto> 100], transactions = []\<rparr>
     = (None, \<lparr>wallets = [''X'' \<mapsto> 110, ''Y'' \<mapsto> 90],
               transactions = [\<lparr>Time = 1, From = ''X'', To = ''Y'', Amount = - 10\<rparr>]\<rparr>)"
  by (simp add: Transfer_def update_balance_def no_fault_def round64_eval fun_upd_twist)

subsection \<open>Non-negative balances\<close>

text \<open>What the balance check of \<open>Transfer\<close> does achieve: a transfer of a non-negative
  amount keeps every balance non-negative, and so does any sequence of requests whose
  transfers all have non-negative amounts.\<close>

lemma update_balance_apply:
  "update_balance f k w x = (if x = k then map_option f (w k) else w x)"
  by (simp add: update_balance_def split: option.splits)

lemma dom_update_balance: "dom (update_balance f k w) = dom w"
  by (auto simp: update_balance_apply dom_def)

lemma update_balance_nonneg:
  assumes "\<forall>x b. w x = Some b \<longrightarrow> 0 \<le> b" and "\<And>b. w k = Some b \<Longrightarrow> 0 \<le> f b"
  shows "\<forall>x b. update_balance f k w x = Some b \<longrightarrow> 0 \<le> b"
  using assms by (auto simp: update_balance_apply split: if_splits)

lemma Transfer_balances_nonneg:
  assumes "balances_nonneg s" and "0 \<le> amount"
  shows "balances_nonneg (snd (Transfer fails now fromID toID amount s))"
proof -
  have nn: "\<forall>x b. wallets s x = Some b \<longrightarrow> 0 \<le> b"
    using assms(1) by (simp add: balances_nonneg_def)
  have "\<forall>x b. update_balance (\<lambda>b. round64 (b + amount)) toID
                 (update_balance (\<lambda>b. round64 (b - amount)) fromID (wallets s)) x = Some b
               \<longrightarrow> 0 \<le> b"
    if ok: "\<not> fromBalance < amount" and src: "wallets s fromID = Some fromBalance"
    for fromBalance
  proof -
    let ?w1 = "update_balance (\<lambda>b. round64 (b - amount)) fromID (wallets s)"
    have w1: "\<forall>x b. ?w1 x = Some b \<longrightarrow> 0 \<le> b"
    proof (rule update_balance_nonneg [OF nn])
      fix b assume "wallets s fromID = Some b"
      then show "0 \<le> round64 (b - amount)"
        using ok src by (auto intro: round64_nonneg)
    qed
    show ?thesis
    proof (rule update_balance_nonneg [OF w1])
      fix b assume "?w1 toID = Some b"
      then have "0 \<le> b" using w1 by blast
      then show "0 \<le> round64 (b + amount)"
        using assms(2) by (auto intro: round64_nonneg)
    qed
  qed
  then show ?thesis
    using assms(1)
    by (auto simp: Transfer_def Let_def balances_nonneg_def split: option.splits)
qed

lemma CreateWallet_balances_nonneg:
  "balances_nonneg s \<Longrightarrow> balances_nonneg (snd (CreateWallet fails uuid s))"
  by (auto simp: CreateWallet_def Let_def balances_nonneg_def)

lemma serve_balances_nonneg:
  "balances_nonneg s \<Longrightarrow> amount_nonneg r \<Longrightarrow> balances_nonneg (serve fails r s)"
  by (cases r) (simp_all add: Transfer_balances_nonneg CreateWallet_balances_nonneg)

lemma serve_all_balances_nonneg:
  "balances_nonneg s \<Longrightarrow> \<forall>(fails, r) \<in> set rs. amount_nonneg r \<Longrightarrow>
   balances_nonneg (serve_all rs s)"
proof (induction rs arbitrary: s)
  case Nil
  then show ?case by simp
next
  case (Cons fr rs)
  obtain fails r where fr: "fr = (fails, r)" by (cases fr)
  from Cons.prems have "balances_nonneg (serve fails r s)"
    by (simp add: fr serve_balances_nonneg)
  with Cons show ?case by (simp add: fr)
qed

text \<open>
  Claim C3 says that no sequence of completed operations drives a balance negative. The
  check \<open>fromBalance < amount\<close> protects the sender only, and only against positive
  amounts: a negative amount is debited from the recipient, whose balance is never
  compared with anything. Two wallets are created and X sends -150 to Y: Y ends with
  -50.
\<close>

theorem negative_amount_overdraws_recipient:
  "wallets (serve_all [(no_fault, PostWallet ''X''), (no_fault, PostWallet ''Y''),
                       (no_fault, PostSend 1 ''X'' ''Y'' (- 150))] empty_store) ''Y''
     = Some (- 50)"
  by (simp add: Transfer_def CreateWallet_def update_balance_def no_fault_def empty_store_def round64_eval)

subsection \<open>The sum of all balances\<close>

lemma sum_dom_upd:
  fixes w :: "'k \<rightharpoonup> real"
  assumes "finite (dom w)" and "w k = Some b"
  shows "(\<Sum>x \<in> dom (w(k \<mapsto> v)). the ((w(k \<mapsto> v)) x)) = (\<Sum>x \<in> dom w. the (w x)) - b + v"
proof -
  have k: "k \<in> dom w" using assms(2) by auto
  then have d: "dom (w(k \<mapsto> v)) = dom w" by auto
  have rest: "(\<Sum>x \<in> dom w - {k}. the ((w(k \<mapsto> v)) x)) = (\<Sum>x \<in> dom w - {k}. the (w x))"
    by (rule sum.cong) auto
  have old: "(\<Sum>x \<in> dom w. the (w x)) = b + (\<Sum>x \<in> dom w - {k}. the (w x))"
    using assms k by (simp add: sum.remove)
  have new: "(\<Sum>x \<in> dom w. the ((w(k \<mapsto> v)) x)) = v + (\<Sum>x \<in> dom w - {k}. the ((w(k \<mapsto> v)) x))"
    using assms(1) k by (simp add: sum.remove)
  have "(\<Sum>x \<in> dom (w(k \<mapsto> v)). the ((w(k \<mapsto> v)) x)) = (\<Sum>x \<in> dom w. the ((w(k \<mapsto> v)) x))"
    by (simp only: d)
  also have "\<dots> = v + (\<Sum>x \<in> dom w - {k}. the (w x))"
    using new rest by (simp only:)
  also have "\<dots> = (\<Sum>x \<in> dom w. the (w x)) - b + v"
    using old by linarith
  finally show ?thesis .
qed

lemma sum_dom_update_balance:
  assumes "finite (dom w)" and "w k = Some b"
  shows "(\<Sum>x \<in> dom (update_balance f k w). the (update_balance f k w x))
           = (\<Sum>x \<in> dom w. the (w x)) - b + f b"
  using sum_dom_upd [OF assms, of "f b"] assms(2) by (simp add: update_balance_def)

text \<open>What a committed transfer between two different ids does to the sum of all
  balances: each of the two updates changes it by the rounded new balance less the old
  one. When both updates are exact and the recipient exists, the sum is as it was; a
  missing recipient lowers it by what the sender lost.\<close>

lemma Transfer_total_balance:
  assumes fin: "finite (dom (wallets s))"
    and ok: "Transfer fails now fromID toID amount s = (None, s')"
    and src: "wallets s fromID = Some b"
    and ne: "fromID \<noteq> toID"
  shows "total_balance s' =
           total_balance s + (round64 (b - amount) - b)
             + (case wallets s toID of None \<Rightarrow> 0 | Some c \<Rightarrow> round64 (c + amount) - c)"
proof -
  define w1 where "w1 = update_balance (\<lambda>b. round64 (b - amount)) fromID (wallets s)"
  define w2 where "w2 = update_balance (\<lambda>b. round64 (b + amount)) toID w1"
  from ok src have s': "wallets s' = w2"
    by (auto simp: Transfer_def Let_def w1_def w2_def split: if_splits)
  have fin1: "finite (dom w1)" using fin by (simp add: w1_def dom_update_balance)
  have t1: "(\<Sum>x \<in> dom w1. the (w1 x)) = total_balance s - b + round64 (b - amount)"
    using sum_dom_update_balance [OF fin src, of "\<lambda>b. round64 (b - amount)"]
    by (simp add: w1_def total_balance_def)
  have to: "w1 toID = wallets s toID"
    using ne by (simp add: w1_def update_balance_apply)
  show ?thesis
  proof (cases "wallets s toID")
    case None
    then have "w2 = w1" using to by (simp add: w2_def update_balance_def)
    then show ?thesis using t1 s' None by (simp add: total_balance_def)
  next
    case (Some c)
    then have "w1 toID = Some c" using to by simp
    then have "(\<Sum>x \<in> dom w2. the (w2 x)) = (\<Sum>x \<in> dom w1. the (w1 x)) - c + round64 (c + amount)"
      unfolding w2_def by (rule sum_dom_update_balance [OF fin1])
    then show ?thesis using t1 s' Some by (simp add: total_balance_def)
  qed
qed

lemma CreateWallet_total_balance:
  assumes "finite (dom (wallets s))" and "CreateWallet fails uuid s = (Inr w, s')"
  shows "total_balance s' = total_balance s + 100"
proof -
  from assms(2) have new: "uuid \<notin> dom (wallets s)" and s': "wallets s' = (wallets s)(uuid \<mapsto> 100)"
    by (auto simp: CreateWallet_def Let_def split: if_splits)
  have "(\<Sum>k \<in> dom (wallets s). the (((wallets s)(uuid \<mapsto> 100)) k)) = (\<Sum>k \<in> dom (wallets s). the (wallets s k))"
    using new by (intro sum.cong) auto
  then show ?thesis
    using assms(1) new by (simp add: total_balance_def s')
qed

text \<open>
  Claim C4 says that the sum of all balances is the same after any sequence of
  successful transfers. A transfer to an id with no wallet succeeds in the source (the
  defect of claim C1), debits the sender and credits nobody: with X holding 100 and
  no other wallet, \<open>Transfer(X, "nonexistent", 10)\<close> returns \<open>nil\<close> and the sum drops
  from 100 to 90.
\<close>

theorem Transfer_to_nonexistent_loses_money:
  "fst (Transfer no_fault 1 ''X'' ''nonexistent'' 10 \<lparr>wallets = [''X'' \<mapsto> 100], transactions = []\<rparr>) = None
   \<and> total_balance \<lparr>wallets = [''X'' \<mapsto> 100], transactions = []\<rparr> = 100
   \<and> total_balance (snd (Transfer no_fault 1 ''X'' ''nonexistent'' 10
        \<lparr>wallets = [''X'' \<mapsto> 100], transactions = []\<rparr>)) = 90"
  by (simp add: Transfer_def update_balance_def no_fault_def total_balance_def round64_eval)

subsection \<open>The history of a wallet\<close>

lemma scan_rows_no_fault:
  "\<not> fails RowsScan \<Longrightarrow> scan_rows fails rows history = Inr (history @ rows)"
  by (induction rows arbitrary: history) simp_all

lemma GetHistory_no_fault:
  assumes "\<forall>c \<in> set history_calls. \<not> fails c"
  shows "GetHistory fails walletID s =
           Inr (filter (\<lambda>t. From t = walletID \<or> To t = walletID) (transactions s))"
  using assms by (simp add: GetHistory_def history_calls_def scan_rows_no_fault)

lemma Transfer_committed_log:
  "Transfer fails now fromID toID amount s = (None, s') \<Longrightarrow>
   transactions s' = transactions s @ [\<lparr>Time = now, From = fromID, To = toID, Amount = amount\<rparr>]"
  by (auto simp: Transfer_def Let_def split: if_splits option.splits)

text \<open>
  Claim C7. When the store answers the calls of \<open>GetHistory\<close>: for a wallet that no
  logged transfer names (whether or not the wallet exists) \<open>GetHistory\<close> returns the
  empty sequence and no error; and after a successful \<open>Transfer(fromID, toID, amount)\<close>
  the histories of \<open>fromID\<close> and of \<open>toID\<close> both contain the record with that sender,
  recipient and amount.
\<close>

theorem GetHistory_complete:
  assumes "\<forall>c \<in> set history_calls. \<not> fails' c"
  shows "((\<forall>t \<in> set (transactions s). From t \<noteq> walletID \<and> To t \<noteq> walletID) \<longrightarrow>
            GetHistory fails' walletID s = Inr [])
       \<and> (Transfer fails now fromID toID amount s = (None, s') \<longrightarrow>
            (\<exists>h. GetHistory fails' fromID s' = Inr h
                \<and> \<lparr>Time = now, From = fromID, To = toID, Amount = amount\<rparr> \<in> set h)
          \<and> (\<exists>h. GetHistory fails' toID s' = Inr h
                \<and> \<lparr>Time = now, From = fromID, To = toID, Amount = amount\<rparr> \<in> set h))"
proof (intro conjI impI)
  assume "\<forall>t \<in> set (transactions s). From t \<noteq> walletID \<and> To t \<noteq> walletID"
  then have "filter (\<lambda>t. From t = walletID \<or> To t = walletID) (transactions s) = []"
    by (simp add: filter_empty_conv)
  then show "GetHistory fails' walletID s = Inr []"
    by (simp add: GetHistory_no_fault [OF assms])
next
  assume "Transfer fails now fromID toID amount s = (None, s')"
  then have log: "transactions s' =
      transactions s @ [\<lparr>Time = now, From = fromID, To = toID, Amount = amount\<rparr>]"
    by (rule Transfer_committed_log)
  show "\<exists>h. GetHistory fails' fromID s' = Inr h
          \<and> \<lparr>Time = now, From = fromID, To = toID, Amount = amount\<rparr> \<in> set h"
    by (simp add: GetHistory_no_fault [OF assms] log)
  show "\<exists>h. GetHistory fails' toID s' = Inr h
          \<and> \<lparr>Time = now, From = fromID, To = toID, Amount = amount\<rparr> \<in> set h"
    by (simp add: GetHistory_no_fault [OF assms] log)
qed

theorem GetHistory_complete_witness:
  "GetHistory no_fault ''Z'' \<lparr>wallets = [''X'' \<mapsto> 100, ''Y'' \<mapsto> 100, ''Z'' \<mapsto> 100], transactions = []\<rparr> = Inr []
   \<and> Transfer no_fault 3 ''X'' ''Y'' 20
        \<lparr>wallets = [''X'' \<mapsto> 100, ''Y'' \<mapsto> 100, ''Z'' \<mapsto> 100], transactions = []\<rparr>
      = (None, \<lparr>wallets = [''X'' \<mapsto> 80, ''Y'' \<mapsto> 120, ''Z'' \<mapsto> 100],
                transactions = [\<lparr>Time = 3, From = ''X'', To = ''Y'', Amount = 20\<rparr>]\<rparr>)
   \<and> (\<exists>h. GetHistory no_fault ''X''
              \<lparr>wallets = [''X'' \<mapsto> 80, ''Y'' \<mapsto> 120, ''Z'' \<mapsto> 100],
               transactions = [\<lparr>Time = 3, From = ''X'', To = ''Y'', Amount = 20\<rparr>]\<rparr> = Inr h
          \<and> \<lparr>Time = 3, From = ''X'', To = ''Y'', Amount = 20\<rparr> \<in> set h)
   \<and> (\<exists>h. GetHistory no_fault ''Y''
              \<lparr>wallets = [''X'' \<mapsto> 80, ''Y'' \<mapsto> 120, ''Z'' \<mapsto> 100],
               transactions = [\<lparr>Time = 3, From = ''X'', To = ''Y'', Amount = 20\<rparr>]\<rparr> = Inr h
          \<and> \<lparr>Time = 3, From = ''X'', To = ''Y'', Amount = 20\<rparr> \<in> set h)"
proof -
  let ?s = "\<lparr>wallets = [''X'' \<mapsto> 100, ''Y'' \<mapsto> (100::real), ''Z'' \<mapsto> 100], transactions = []\<rparr>"
  let ?s' = "\<lparr>wallets = [''X'' \<mapsto> 80, ''Y'' \<mapsto> (120::real), ''Z'' \<mapsto> 100],
              transactions = [\<lparr>Time = 3, From = ''X'', To = ''Y'', Amount = 20\<rparr>]\<rparr>"
  have nf: "\<forall>c \<in> set history_calls. \<not> no_fault c"
    by (simp add: no_fault_def)
  have tr: "Transfer no_fault 3 ''X'' ''Y'' 20 ?s = (None, ?s')"
    by (simp add: Transfer_def update_balance_def no_fault_def round64_eval fun_upd_twist)
  show ?thesis
    using GetHistory_complete [OF nf, of ?s "''Z''" no_fault 3 "''X''" "''Y''" 20 ?s'] tr
    by simp
qed

subsection \<open>A transfer from a wallet to itself\<close>




subsection \<open>The scenario of two fresh wallets\<close>

text \<open>
  Claim C6. Two wallets X and Y are created, with ids that are new to the store and not
  named in its log, and the store answers every call. Each wallet starts with balance
  100; \<open>Transfer(X, Y, 50)\<close> succeeds; afterwards \<open>GetWallet(X)\<close> returns balance 50,
  \<open>GetWallet(Y)\<close> returns balance 150, and \<open>GetHistory(X)\<close> is exactly the one record
  from X to Y of amount 50.
\<close>

theorem transfer_50_scenario:
  assumes "X \<noteq> Y" and "X \<notin> dom (wallets s)" and "Y \<notin> dom (wallets s)"
    and "\<forall>t \<in> set (transactions s). From t \<noteq> X \<and> To t \<noteq> X"
  shows "\<exists>s1 s2 s3.
           CreateWallet no_fault X s = (Inr \<lparr>ID = X, Balance = 100\<rparr>, s1)
         \<and> CreateWallet no_fault Y s1 = (Inr \<lparr>ID = Y, Balance = 100\<rparr>, s2)
         \<and> Transfer no_fault now X Y 50 s2 = (None, s3)
         \<and> GetWallet no_fault X s3 = Inr \<lparr>ID = X, Balance = 50\<rparr>
         \<and> GetWallet no_fault Y s3 = Inr \<lparr>ID = Y, Balance = 150\<rparr>
         \<and> GetHistory no_fault X s3 = Inr [\<lparr>Time = now, From = X, To = Y, Amount = 50\<rparr>]"
proof -
  define s1 where "s1 = s\<lparr>wallets := (wallets s)(X \<mapsto> 100)\<rparr>"
  define s2 where "s2 = s1\<lparr>wallets := (wallets s1)(Y \<mapsto> 100)\<rparr>"
  define s3 where "s3 = \<lparr>wallets = (wallets s)(X \<mapsto> 50, Y \<mapsto> 150),
      transactions = transactions s @ [\<lparr>Time = now, From = X, To = Y, Amount = 50\<rparr>]\<rparr>"
  have c1: "CreateWallet no_fault X s = (Inr \<lparr>ID = X, Balance = 100\<rparr>, s1)"
    using assms(2) by (simp add: CreateWallet_def no_fault_def s1_def)
  have c2: "CreateWallet no_fault Y s1 = (Inr \<lparr>ID = Y, Balance = 100\<rparr>, s2)"
    using assms(1,3) by (simp add: CreateWallet_def no_fault_def s1_def s2_def)
  have w2: "wallets s2 = (wallets s)(X \<mapsto> 100, Y \<mapsto> 100)"
    by (simp add: s1_def s2_def)
  have r: "round64 50 = 50" "round64 150 = 150"
    using round64_of_int [of 50] round64_of_int [of 150] by simp_all
  have "update_balance (\<lambda>b. round64 (b + 50)) Y
          (update_balance (\<lambda>b. round64 (b - 50)) X (wallets s2))
          = (wallets s)(X \<mapsto> 50, Y \<mapsto> 150)"
    using assms(1) by (auto simp: w2 update_balance_apply r)
  then have t: "Transfer no_fault now X Y 50 s2 = (None, s3)"
    using assms(1) by (simp add: Transfer_def no_fault_def w2 s3_def s2_def s1_def)
  have g1: "GetWallet no_fault X s3 = Inr \<lparr>ID = X, Balance = 50\<rparr>"
    using assms(1) by (simp add: GetWallet_def no_fault_def s3_def)
  have g2: "GetWallet no_fault Y s3 = Inr \<lparr>ID = Y, Balance = 150\<rparr>"
    by (simp add: GetWallet_def no_fault_def s3_def)
  have "filter (\<lambda>t. From t = X \<or> To t = X) (transactions s) = []"
    using assms(4) by (simp add: filter_empty_conv)
  then have h: "GetHistory no_fault X s3 = Inr [\<lparr>Time = now, From = X, To = Y, Amount = 50\<rparr>]"
    by (simp add: GetHistory_no_fault history_calls_def no_fault_def s3_def)
  from c1 c2 t g1 g2 h show ?thesis by blast
qed

theorem transfer_50_scenario_witness:
  "\<exists>s1 s2 s3.
      CreateWallet no_fault ''X'' empty_store = (Inr \<lparr>ID = ''X'', Balance = 100\<rparr>, s1)
    \<and> CreateWallet no_fault ''Y'' s1 = (Inr \<lparr>ID = ''Y'', Balance = 100\<rparr>, s2)
    \<and> Transfer no_fault 1 ''X'' ''Y'' 50 s2 = (None, s3)
    \<and> GetWallet no_fault ''X'' s3 = Inr \<lparr>ID = ''X'', Balance = 50\<rparr>
    \<and> GetWallet no_fault ''Y'' s3 = Inr \<lparr>ID = ''Y'', Balance = 150\<rparr>
    \<and> GetHistory no_fault ''X'' s3 = Inr [\<lparr>Time = 1, From = ''X'', To = ''Y'', Amount = 50\<rparr>]"
  using transfer_50_scenario [of "''X''" "''Y''" empty_store 1]
  by (simp add: empty_store_def)

subsection \<open>Rounding of balances\<close>




subsection \<open>The order of the row locks\<close>

text \<open>
  Claim C9 says that every transfer locks the rows of its two wallets in one fixed order
  given by a total order on the ids, whatever the direction of the transfer. The source
  never compares the ids: it locks the sender's row, then the recipient's. The transfer
  from A to B locks A before B and the transfer from B to A locks B before A, so no
  antisymmetric relation on ids, and hence no total order, has both sequences in order.
\<close>

theorem Transfer_locks_follow_direction:
  "Transfer_locks no_fault ''A'' ''B'' 10 \<lparr>wallets = [''A'' \<mapsto> 100, ''B'' \<mapsto> 100], transactions = []\<rparr>
     = [''A'', ''A'', ''B'']
   \<and> Transfer_locks no_fault ''B'' ''A'' 10 \<lparr>wallets = [''A'' \<mapsto> 100, ''B'' \<mapsto> 100], transactions = []\<rparr>
     = [''B'', ''B'', ''A'']
   \<and> \<not> (\<exists>ord. antisymp ord
        \<and> sorted_wrt ord (Transfer_locks no_fault ''A'' ''B'' 10
             \<lparr>wallets = [''A'' \<mapsto> 100, ''B'' \<mapsto> 100], transactions = []\<rparr>)
        \<and> sorted_wrt ord (Transfer_locks no_fault ''B'' ''A'' 10
             \<lparr>wallets = [''A'' \<mapsto> 100, ''B'' \<mapsto> 100], transactions = []\<rparr>))"
proof -
  let ?s = "\<lparr>wallets = [''A'' \<mapsto> 100, ''B'' \<mapsto> (100::real)], transactions = []\<rparr>"
  have ab: "Transfer_locks no_fault ''A'' ''B'' 10 ?s = [''A'', ''A'', ''B'']"
    by (simp add: Transfer_locks_def no_fault_def)
  have ba: "Transfer_locks no_fault ''B'' ''A'' 10 ?s = [''B'', ''B'', ''A'']"
    by (simp add: Transfer_locks_def no_fault_def)
  have "\<not> (\<exists>ord. antisymp ord \<and> sorted_wrt ord [''A'', ''A'', ''B''] \<and> sorted_wrt ord [''B'', ''B'', ''A''])"
  proof
    assume "\<exists>ord. antisymp ord \<and> sorted_wrt ord [''A'', ''A'', ''B''] \<and> sorted_wrt ord [''B'', ''B'', ''A'']"
    then obtain ord where "antisymp ord" and "ord ''A'' ''B''" and "ord ''B'' ''A''"
      by auto
    then have "''A'' = ''B''" by (rule antisympD)
    then show False by simp
  qed
  with ab ba show ?thesis by simp
qed

text \<open>
  Claim C9, amended. Every transfer that commits to an existing recipient locks the
  sender's row first (for the balance query and again for the debit) and the
  recipient's row last (for the credit): the order is the direction of the transfer,
  not an order on the ids. Nothing is said of two transfers that run at the same time.
\<close>

theorem Transfer_locks_sender_first:
  assumes "fst (Transfer fails now fromID toID amount s) = None"
    and "toID \<in> dom (wallets s)"
  shows "Transfer_locks fails fromID toID amount s = [fromID, fromID, toID]"
  using assms
  by (auto simp: Transfer_def Transfer_locks_def Let_def split: if_splits option.splits)

theorem Transfer_locks_sender_first_witness:
  "fst (Transfer no_fault 1 ''B'' ''A'' 10 \<lparr>wallets = [''A'' \<mapsto> 100, ''B'' \<mapsto> 100], transactions = []\<rparr>) = None
   \<and> Transfer_locks no_fault ''B'' ''A'' 10 \<lparr>wallets = [''A'' \<mapsto> 100, ''B'' \<mapsto> 100], transactions = []\<rparr>
       = [''B'', ''B'', ''A'']"
proof -
  let ?s = "\<lparr>wallets = [''A'' \<mapsto> 100, ''B'' \<mapsto> (100::real)], transactions = []\<rparr>"
  have ok: "fst (Transfer no_fault 1 ''B'' ''A'' 10 ?s) = None"
    by (simp add: Transfer_def no_fault_def)
  have ex: "''A'' \<in> dom (wallets ?s)" by simp
  show ?thesis
    using Transfer_locks_sender_first [OF ok ex] ok by simp
qed

end
